theory Spec2Isabelle
  imports Main "HOL-Library.Word"
begin

section \<open>JavaScript strings and numbers\<close>

text \<open>
  A JavaScript string is a sequence of UTF-16 code units, and \<open>charCodeAt\<close> reads one
  of them as a number between 0 and 65535. String literals of the source are ASCII and
  are written \<open>lit ''...''\<close>.
\<close>

type_synonym jsstring = "16 word list"

definition lit :: "string \<Rightarrow> jsstring" where
  "lit s = map of_char s"

text \<open>
  \<open>String(n)\<close> and template interpolation of an integral number: its decimal digits,
  preceded by a minus sign when it is negative.
\<close>

function digits :: "nat \<Rightarrow> jsstring" where
  "digits n = (if n < 10 then [of_nat (48 + n)] else digits (n div 10) @ [of_nat (48 + n mod 10)])"
  by pat_completeness auto
termination
  by (relation "measure id") auto

declare digits.simps [simp del]

definition Number_toString :: "int \<Rightarrow> jsstring" where
  "Number_toString n = (if n < 0 then lit ''-'' @ digits (nat (- n)) else digits (nat n))"

text \<open>
  The numbers of the source are doubles holding integers; they are modelled as \<open>int\<close>.
  Only \<open><<\<close> works on 32 bits: it converts its left operand with ToInt32 (reduction
  modulo \<open>2^32\<close> into the signed range), shifts, and converts the result again.
  Subtraction and addition are ordinary arithmetic and do not wrap.
\<close>

definition ToInt32 :: "int \<Rightarrow> int" where
  "ToInt32 x = (let m = x mod 2 ^ 32 in if 2 ^ 31 \<le> m then m - 2 ^ 32 else m)"

definition shiftLeft :: "int \<Rightarrow> nat \<Rightarrow> int" where
  "shiftLeft x k = ToInt32 (ToInt32 x * 2 ^ (k mod 32))"

text \<open>The remainder operator \<open>%\<close> truncates: the result has the sign of the dividend.\<close>

definition js_rem :: "int \<Rightarrow> int \<Rightarrow> int" where
  "js_rem a b = sgn a * (\<bar>a\<bar> mod \<bar>b\<bar>)"

section \<open>The colour of a display name\<close>

text \<open>
  \<^verbatim>\<open>
  const stringToHslColor = (str) => {
    let hash = 0;
    for (let i = 0; i < str.length; i++) {
      hash = str.charCodeAt(i) + ((hash << 5) - hash);
    }
    const hue = hash % 360;
    return `hsl(${hue}, 70%, 50%)`;
  };
  \<close>
  The loop runs over the code units from left to right, carrying \<open>hash\<close>.
\<close>

fun hash_loop :: "jsstring \<Rightarrow> int \<Rightarrow> int" where
  "hash_loop [] hash = hash"
| "hash_loop (c # cs) hash = hash_loop cs (uint c + (shiftLeft hash 5 - hash))"

definition hash_of :: "jsstring \<Rightarrow> int" where
  "hash_of str = hash_loop str 0"

definition hue_of :: "jsstring \<Rightarrow> int" where
  "hue_of str = js_rem (hash_of str) 360"

definition stringToHslColor :: "jsstring \<Rightarrow> jsstring" where
  "stringToHslColor str =
     (let hash = hash_loop str 0;
          hue = js_rem hash 360
      in lit ''hsl('' @ Number_toString hue @ lit '', 70%, 50%)'')"

section \<open>Values and documents of the shared store\<close>

text \<open>
  The values the source reads from a document or holds in its state. Numbers are the
  integral ones (\<open>Date.now()\<close> is a count of milliseconds). Strict equality \<open>===\<close> on
  these values is equality of the datatype.
\<close>

datatype jsval = Undefined | Null | Bool bool | Num int | Str jsstring

fun truthy :: "jsval \<Rightarrow> bool" where
  "truthy Undefined = False"
| "truthy Null = False"
| "truthy (Bool b) = b"
| "truthy (Num n) = (n \<noteq> 0)"
| "truthy (Str s) = (s \<noteq> [])"

text \<open>
  An object is a map from property names to values; reading a property that is not there
  gives \<open>undefined\<close>.
\<close>

type_synonym doc = "jsstring \<rightharpoonup> jsval"

definition get_prop :: "doc \<Rightarrow> jsstring \<Rightarrow> jsval" where
  "get_prop d k = (case d k of None \<Rightarrow> Undefined | Some v \<Rightarrow> v)"

text \<open>
  The rota collection of the store: its documents with their ids, in the order a
  snapshot enumerates them. \<open>rotaData\<close> is the object the listener builds from it.
\<close>

type_synonym snapshot = "(jsstring \<times> doc) list"

type_synonym rota = "jsstring \<rightharpoonup> doc"

text \<open>
  \<open>setDoc(docRef, fields, { merge: true })\<close>: the fields given overwrite those of the
  stored document and its other fields stay; a document that does not exist is created
  with the fields given.
\<close>

fun setDoc_merge :: "snapshot \<Rightarrow> jsstring \<Rightarrow> doc \<Rightarrow> snapshot" where
  "setDoc_merge [] i fields = [(i, fields)]"
| "setDoc_merge ((j, d) # ds) i fields =
     (if j = i then (j, d ++ fields) # ds else (j, d) # setDoc_merge ds i fields)"

section \<open>Dates\<close>

text \<open>
  A \<open>Date\<close> holds an instant, and the source reads and writes it through its local-time
  fields only. It is modelled by its local time value \<open>LocalTime(t)\<close>: the number of the
  local day (day 0 is 1970-01-01) and the milliseconds elapsed within that day, from 0
  to 86399999. The getters read these fields. The setters compute a local date and time
  and go back to an instant through the time zone of the host, so what they store is
  that local time as the zone resolves it. The functions below are those of the
  ECMAScript specification (DayFromYear, InLeapYear, YearFromTime, MonthFromTime,
  DateFromTime, WeekDay, MakeDay, MakeDate, LocalTime, UTC), on day numbers and
  milliseconds.
\<close>

record jsdate =
  day :: int
  msInDay :: int









definition DayFromYear :: "int \<Rightarrow> int" where
  "DayFromYear y = 365 * (y - 1970) + (y - 1969) div 4 - (y - 1901) div 100 + (y - 1601) div 400"

definition InLeapYear :: "int \<Rightarrow> int" where
  "InLeapYear y = (if y mod 4 = 0 \<and> (y mod 100 \<noteq> 0 \<or> y mod 400 = 0) then 1 else 0)"

text \<open>The year of a day: the largest \<open>y\<close> with \<open>DayFromYear y \<le> d\<close>, found from an
  estimate that is off by one year at most.\<close>

definition YearFromDay :: "int \<Rightarrow> int" where
  "YearFromDay d =
     (let y = 1970 + (d * 400) div 146097
      in if DayFromYear (y + 1) \<le> d then y + 1
         else if d < DayFromYear y then y - 1
         else y)"

definition DayWithinYear :: "int \<Rightarrow> int" where
  "DayWithinYear d = d - DayFromYear (YearFromDay d)"

definition MonthFromDay :: "int \<Rightarrow> int" where
  "MonthFromDay d =
     (let w = DayWithinYear d; l = InLeapYear (YearFromDay d)
      in if w < 31 then 0
         else if w < 59 + l then 1
         else if w < 90 + l then 2
         else if w < 120 + l then 3
         else if w < 151 + l then 4
         else if w < 181 + l then 5
         else if w < 212 + l then 6
         else if w < 243 + l then 7
         else if w < 273 + l then 8
         else if w < 304 + l then 9
         else if w < 334 + l then 10
         else 11)"

text \<open>The day within the year on which month \<open>m\<close> (0 to 11) starts.\<close>

definition monthStart :: "int \<Rightarrow> int \<Rightarrow> int" where
  "monthStart m l =
     (if m = 0 then 0
      else if m = 1 then 31
      else if m = 2 then 59 + l
      else if m = 3 then 90 + l
      else if m = 4 then 120 + l
      else if m = 5 then 151 + l
      else if m = 6 then 181 + l
      else if m = 7 then 212 + l
      else if m = 8 then 243 + l
      else if m = 9 then 273 + l
      else if m = 10 then 304 + l
      else 334 + l)"

definition DateFromDay :: "int \<Rightarrow> int" where
  "DateFromDay d = DayWithinYear d - monthStart (MonthFromDay d) (InLeapYear (YearFromDay d)) + 1"


definition getFullYear :: "jsdate \<Rightarrow> int" where
  "getFullYear d = YearFromDay (day d)"

definition getMonth :: "jsdate \<Rightarrow> int" where
  "getMonth d = MonthFromDay (day d)"

definition getDate :: "jsdate \<Rightarrow> int" where
  "getDate d = DateFromDay (day d)"

text \<open>\<open>getDay\<close>: 0 is Sunday, 1 is Monday, ..., 6 is Saturday; day 0 was a Thursday.\<close>

definition getDay :: "jsdate \<Rightarrow> int" where
  "getDay d = (day d + 4) mod 7"




text \<open>\<open>s.padStart(2, '0')\<close>\<close>

definition padStart2 :: "jsstring \<Rightarrow> jsstring" where
  "padStart2 s = replicate (2 - length s) 48 @ s"

definition formatDate :: "jsdate \<Rightarrow> jsstring" where
  "formatDate date =
     (let yyyy = Number_toString (getFullYear date);
          mm = padStart2 (Number_toString (getMonth date + 1));
          dd = padStart2 (Number_toString (getDate date))
      in yyyy @ lit ''-'' @ mm @ lit ''-'' @ dd)"



section \<open>The weeks of the rota\<close>










section \<open>A cell of the rota\<close>

text \<open>
  The properties \<open>App\<close> hands to a \<open>RotaCell\<close>. \<open>userId\<close> is \<open>null\<close> or a string, \<open>db\<close> is
  \<open>null\<close> or the Firestore handle.
\<close>

datatype firestore = Firestore

record cell_props =
  date :: jsdate
  task :: jsstring
  data :: rota
  userId :: "jsstring option"
  userName :: jsstring
  userColor :: jsstring
  db :: "firestore option"
  collectionPath :: jsstring

definition id_val :: "jsstring option \<Rightarrow> jsval" where
  "id_val u = (case u of None \<Rightarrow> Null | Some s \<Rightarrow> Str s)"

text \<open>The characters the regular expression \<open>\s\<close> matches.\<close>

definition is_whitespace :: "16 word \<Rightarrow> bool" where
  "is_whitespace c =
     (c \<in> set [9, 10, 11, 12, 13, 32, 160, 5760, 8232, 8233, 8239, 8287, 12288, 65279]
      \<or> (8192 \<le> c \<and> c \<le> 8202))"

text \<open>\<open>task.replace(/\s/g, '_')\<close>\<close>

definition replace_whitespace :: "jsstring \<Rightarrow> jsstring" where
  "replace_whitespace s = map (\<lambda>c. if is_whitespace c then 95 else c) s"

text \<open>
  \<^verbatim>\<open>
  const docId = `${formatDate(date)}_${task.replace(/\s/g, '_')}`;
  const slot = data[docId] || {};
  const isClaimed = !!slot.claimedBy;
  const isMine = slot.claimedBy === userId;
  \<close>
\<close>

definition docId :: "jsdate \<Rightarrow> jsstring \<Rightarrow> jsstring" where
  "docId dt tk = formatDate dt @ lit ''_'' @ replace_whitespace tk"

definition slot :: "cell_props \<Rightarrow> doc" where
  "slot p = (case data p (docId (date p) (task p)) of None \<Rightarrow> Map.empty | Some d \<Rightarrow> d)"

definition isClaimed :: "cell_props \<Rightarrow> bool" where
  "isClaimed p = truthy (get_prop (slot p) (lit ''claimedBy''))"

definition isMine :: "cell_props \<Rightarrow> bool" where
  "isMine p = (get_prop (slot p) (lit ''claimedBy'') = id_val (userId p))"

text \<open>
  What a call of \<open>handleToggle\<close> does: the alert of the offline mode, the warning that
  the user is not ready, one \<open>setDoc\<close> with \<open>merge: true\<close> (collection path, document id,
  fields), or nothing.
  \<^verbatim>\<open>
  if (isExternalHost) { alert("Rota is in Offline/UI-Only Mode. ..."); return; }
  if (!userId || !userName || !db) { console.warn("Cannot toggle slot: ..."); return; }
  const docRef = doc(db, collectionPath, docId);
  try {
    if (isMine) {
      await setDoc(docRef, { claimedBy: null, name: null, color: null }, { merge: true });
    } else if (!isClaimed) {
      await setDoc(docRef, { claimedBy: userId, name: userName, color: userColor,
                             timestamp: Date.now() }, { merge: true });
    }
  } catch (error) { console.error("Error toggling shift status:", error); }
  \<close>
  \<open>isExternalHost\<close> is fixed when the module loads and \<open>now\<close> is the value of
  \<open>Date.now()\<close>.
\<close>

datatype toggle_effect = Alert | Warn | SetDoc jsstring jsstring doc | Skip

definition handleToggle :: "bool \<Rightarrow> cell_props \<Rightarrow> int \<Rightarrow> toggle_effect" where
  "handleToggle isExternalHost p now =
     (if isExternalHost then Alert
      else if \<not> truthy (id_val (userId p)) \<or> userName p = [] \<or> db p = None then Warn
      else if isMine p then
        SetDoc (collectionPath p) (docId (date p) (task p))
          [lit ''claimedBy'' \<mapsto> Null, lit ''name'' \<mapsto> Null, lit ''color'' \<mapsto> Null]
      else if \<not> isClaimed p then
        SetDoc (collectionPath p) (docId (date p) (task p))
          [lit ''claimedBy'' \<mapsto> id_val (userId p), lit ''name'' \<mapsto> Str (userName p),
           lit ''color'' \<mapsto> Str (userColor p), lit ''timestamp'' \<mapsto> Num now]
      else Skip)"

section \<open>The application\<close>

text \<open>
  The state of \<open>App\<close>. At the start \<open>db\<close> and \<open>userId\<close> are \<open>null\<close>, \<open>rotaData\<close> is the
  empty object and \<open>userName\<close> is \<open>localStorage.getItem('rotaUserName') || ''\<close>;
  \<open>userColor\<close> is recomputed from \<open>userName\<close>.
\<close>

record app_state =
  app_db :: "firestore option"
  app_userId :: "jsstring option"
  rotaData :: rota
  loading :: bool
  app_userName :: jsstring

definition App_init :: "jsstring option \<Rightarrow> app_state" where
  "App_init stored =
     \<lparr>app_db = None, app_userId = None, rotaData = Map.empty, loading = True,
      app_userName = (case stored of None \<Rightarrow> [] | Some s \<Rightarrow> if s \<noteq> [] then s else [])\<rparr>"

definition app_userColor :: "app_state \<Rightarrow> jsstring" where
  "app_userColor a = stringToHslColor (app_userName a)"

definition ROTA_COLLECTION_PATH :: jsstring where
  "ROTA_COLLECTION_PATH = lit ''artifacts/NETLIFY_HOSTED_APP/public/data/family_care_rota_v2''"

definition TASKS :: "jsstring list" where
  "TASKS = map lit [''Breakfast'', ''Lunch'', ''Dinner'']"

definition RotaCell_props :: "app_state \<Rightarrow> jsdate \<Rightarrow> jsstring \<Rightarrow> cell_props" where
  "RotaCell_props a dt tk =
     \<lparr>date = dt, task = tk, data = rotaData a, userId = app_userId a,
      userName = app_userName a, userColor = app_userColor a, db = app_db a,
      collectionPath = ROTA_COLLECTION_PATH\<rparr>"

text \<open>
  The listener of the collection:
  \<^verbatim>\<open>
  onSnapshot(query(collectionRef), (snapshot) => {
    const newRotaData = {};
    snapshot.forEach((doc) => {
      if (doc.data().claimedBy) { newRotaData[doc.id] = doc.data(); }
    });
    setRotaData(newRotaData);
  })
  \<close>
\<close>

fun forEach_doc :: "snapshot \<Rightarrow> rota \<Rightarrow> rota" where
  "forEach_doc [] newRotaData = newRotaData"
| "forEach_doc ((i, d) # ds) newRotaData =
     forEach_doc ds
       (if truthy (get_prop d (lit ''claimedBy'')) then newRotaData(i \<mapsto> d) else newRotaData)"

definition onSnapshot :: "snapshot \<Rightarrow> app_state \<Rightarrow> app_state" where
  "onSnapshot snap a = a\<lparr>rotaData := forEach_doc snap Map.empty\<rparr>"

text \<open>The listener is installed unless \<open>isExternalHost || !db || !userId\<close>.\<close>

definition listening :: "bool \<Rightarrow> app_state \<Rightarrow> bool" where
  "listening isExternalHost a =
     (\<not> (isExternalHost \<or> app_db a = None \<or> \<not> truthy (id_val (app_userId a))))"

section \<open>A toggle with the store settled\<close>

text \<open>
  The store applies the write of a toggle to the rota collection (a write to another
  collection path leaves it as it is), and the listener, when installed, then receives
  the snapshot of the collection. A toggle that writes nothing changes neither.
\<close>

definition commit :: "toggle_effect \<Rightarrow> snapshot \<Rightarrow> snapshot" where
  "commit eff remote =
     (case eff of
        SetDoc path i written \<Rightarrow>
          if path = ROTA_COLLECTION_PATH then setDoc_merge remote i written else remote
      | _ \<Rightarrow> remote)"

definition is_write :: "toggle_effect \<Rightarrow> bool" where
  "is_write eff = (case eff of SetDoc path i written \<Rightarrow> True | _ \<Rightarrow> False)"

definition toggle_settled ::
  "bool \<Rightarrow> jsdate \<Rightarrow> jsstring \<Rightarrow> int \<Rightarrow> snapshot \<times> app_state \<Rightarrow> snapshot \<times> app_state" where
  "toggle_settled isExternalHost dt tk now st =
     (let remote = fst st; a = snd st;
          eff = handleToggle isExternalHost (RotaCell_props a dt tk) now;
          remote' = commit eff remote
      in if is_write eff
         then (remote', if listening isExternalHost a then onSnapshot remote' a else a)
         else (remote, a))"

section \<open>Scenario values\<close>

text \<open>
  The values of the scenarios: the date 2024-01-01 (day 19723, a Monday), the users A
  (Alice) and B (Bob), both signed in with a name set, the record of the collection
  for a slot Alice has claimed at time 1000, and the same record after her unclaim.
\<close>

definition jan1 :: jsdate where
  "jan1 = \<lparr>day = 19723, msInDay = 0\<rparr>"

definition alice :: app_state where
  "alice = \<lparr>app_db = Some Firestore, app_userId = Some (lit ''A''), rotaData = Map.empty,
            loading = False, app_userName = lit ''Alice''\<rparr>"

definition bob :: app_state where
  "bob = \<lparr>app_db = Some Firestore, app_userId = Some (lit ''B''), rotaData = Map.empty,
          loading = False, app_userName = lit ''Bob''\<rparr>"

definition claimed_by_alice :: doc where
  "claimed_by_alice =
     [lit ''claimedBy'' \<mapsto> Str (lit ''A''), lit ''name'' \<mapsto> Str (lit ''Alice''),
      lit ''color'' \<mapsto> Str (lit ''hsl(88, 70%, 50%)''), lit ''timestamp'' \<mapsto> Num 1000]"

definition unclaimed_by_alice :: doc where
  "unclaimed_by_alice =
     [lit ''claimedBy'' \<mapsto> Null, lit ''name'' \<mapsto> Null,
      lit ''color'' \<mapsto> Null, lit ''timestamp'' \<mapsto> Num 1000]"

section \<open>Strings and 32-bit conversion\<close>

lemma unat_of_char: "unat (of_char c :: 16 word) = of_char c"
proof -
  have lt: "(of_char c :: nat) < 256"
    using of_char_mod_256 [of c, where ?'a = nat] by (metis mod_less_divisor zero_less_numeral)
  have "(of_char c :: 16 word) = of_nat (of_char c)"
    by (simp add: of_nat_of_char)
  then have "unat (of_char c :: 16 word) = (of_char c :: nat) mod 2 ^ 16"
    by (simp add: unat_of_nat del: of_nat_of_char)
  moreover have "(of_char c :: nat) < 2 ^ 16" using lt by (rule less_trans) simp
  ultimately show ?thesis by (simp only: mod_less)
qed

lemma lit_eq_iff: "lit a = lit b \<longleftrightarrow> a = b"
proof -
  have "inj (of_char :: char \<Rightarrow> 16 word)"
  proof (rule injI)
    fix c d :: char
    assume "(of_char c :: 16 word) = of_char d"
    then have "unat (of_char c :: 16 word) = unat (of_char d :: 16 word)" by simp
    then show "c = d" by (simp add: unat_of_char)
  qed
  then show ?thesis unfolding lit_def by (simp add: inj_map_eq_map)
qed

lemma ToInt32_cases:
  "ToInt32 x = (if 2147483648 \<le> x mod 4294967296 then x mod 4294967296 - 4294967296 else x mod 4294967296)"
  by (simp add: ToInt32_def Let_def)

lemma ToInt32_range: "- (2 ^ 31) \<le> ToInt32 x \<and> ToInt32 x < 2 ^ 31"
proof -
  define m where "m = x mod 4294967296"
  have "0 \<le> m" "m < 4294967296" by (simp_all add: m_def)
  moreover have "ToInt32 x = (if 2147483648 \<le> m then m - 4294967296 else m)"
    unfolding m_def by (rule ToInt32_cases)
  ultimately show ?thesis by (simp split: if_splits)
qed









text \<open>
  The hash grows by less than \<open>2^31 + 2^16\<close> with each code unit, so it stays far below
  \<open>2^53\<close>, where doubles stop being exact, for every string of up to four million code
  units: on those the integer model and the arithmetic of the source agree.
\<close>

lemma hash_growth: "\<bar>hash_loop str h\<bar> \<le> \<bar>h\<bar> + int (length str) * (2 ^ 31 + 65535)"
proof (induction str arbitrary: h)
  case Nil
  then show ?case by simp
next
  case (Cons c cs)
  have c: "0 \<le> uint c \<and> uint c \<le> 65535"
    using uint_lt2p [of c] by simp
  have s: "- (2 ^ 31) \<le> shiftLeft h 5 \<and> shiftLeft h 5 < 2 ^ 31"
    unfolding shiftLeft_def by (rule ToInt32_range)
  have "\<bar>uint c + (shiftLeft h 5 - h)\<bar> \<le> \<bar>h\<bar> + (2 ^ 31 + 65535)"
    using c s by linarith
  with Cons.IH [of "uint c + (shiftLeft h 5 - h)"] show ?case
    by (simp add: algebra_simps)
qed


lemma digits_small: "n < 10 \<Longrightarrow> digits n = [of_nat (48 + n)]"
  by (subst digits.simps) simp

lemma digits_large: "10 \<le> n \<Longrightarrow> digits n = digits (n div 10) @ [of_nat (48 + n mod 10)]"
  by (subst digits.simps) simp

lemmas eval_color = stringToHslColor_def hue_of_def hash_of_def js_rem_def Number_toString_def
  digits_small digits_large lit_def shiftLeft_def ToInt32_def

section \<open>The colour function\<close>




text \<open>
  Claim C10. \<open>stringToHslColor\<close> is defined on the empty string: its hash and hue are 0
  and its colour is \<open>hsl(0, 70%, 50%)\<close>. This is the \<open>userColor\<close> of the application at
  its start, when no name is stored (or an empty one is) and \<open>userName\<close> is \<open>''\<close>.
\<close>

theorem stringToHslColor_empty:
  "hash_of [] = 0 \<and> hue_of [] = 0
   \<and> stringToHslColor [] = lit ''hsl(0, 70%, 50%)''
   \<and> app_userName (App_init None) = []
   \<and> app_userColor (App_init None) = lit ''hsl(0, 70%, 50%)''
   \<and> app_userColor (App_init (Some [])) = lit ''hsl(0, 70%, 50%)''"
  by (simp add: eval_color App_init_def app_userColor_def)

section \<open>Reconciliation of a snapshot\<close>

lemma forEach_doc_sound:
  "forEach_doc snap acc i = Some d \<Longrightarrow>
     acc i = Some d \<or> ((i, d) \<in> set snap \<and> truthy (get_prop d (lit ''claimedBy'')))"
proof (induction snap arbitrary: acc)
  case Nil
  then show ?case by simp
next
  case (Cons x xs)
  obtain j e where x: "x = (j, e)" by (cases x)
  show ?case
  proof (cases "truthy (get_prop e (lit ''claimedBy''))")
    case True
    with Cons.prems x have "forEach_doc xs (acc(j \<mapsto> e)) i = Some d" by simp
    from Cons.IH [OF this] True x show ?thesis by (auto split: if_splits)
  next
    case False
    with Cons.prems x have "forEach_doc xs acc i = Some d" by simp
    from Cons.IH [OF this] x show ?thesis by auto
  qed
qed

lemma forEach_doc_other:
  "i \<notin> fst ` set snap \<Longrightarrow> forEach_doc snap acc i = acc i"
proof (induction snap arbitrary: acc)
  case Nil
  then show ?case by simp
next
  case (Cons x xs)
  obtain j e where x: "x = (j, e)" by (cases x)
  from Cons.prems x have ne: "j \<noteq> i" and rest: "i \<notin> fst ` set xs" by auto
  show ?case using Cons.IH [OF rest] ne x by simp
qed

lemma forEach_doc_complete:
  "distinct (map fst snap) \<Longrightarrow> (i, d) \<in> set snap \<Longrightarrow>
     truthy (get_prop d (lit ''claimedBy'')) \<Longrightarrow> forEach_doc snap acc i = Some d"
proof (induction snap arbitrary: acc)
  case Nil
  then show ?case by simp
next
  case (Cons x xs)
  obtain j e where x: "x = (j, e)" by (cases x)
  show ?case
  proof (cases "(i, d) = (j, e)")
    case True
    with Cons.prems x have "i \<notin> fst ` set xs" by auto
    then show ?thesis using True x Cons.prems(3) by (simp add: forEach_doc_other)
  next
    case False
    with Cons.prems x have "(i, d) \<in> set xs" and "distinct (map fst xs)" by auto
    then show ?thesis using Cons.IH Cons.prems(3) x by simp
  qed
qed

lemma forEach_doc_iff:
  "distinct (map fst snap) \<Longrightarrow>
     forEach_doc snap Map.empty i = Some d \<longleftrightarrow>
       (i, d) \<in> set snap \<and> truthy (get_prop d (lit ''claimedBy''))"
  using forEach_doc_sound [of snap Map.empty i d] forEach_doc_complete [of snap i d Map.empty]
  by auto

section \<open>The toggle\<close>

lemma ready_mine_claimed:
  "truthy (id_val (userId p)) \<Longrightarrow> isMine p \<Longrightarrow> isClaimed p"
  by (simp add: isMine_def isClaimed_def)

lemma handleToggle_not_ready:
  "isExternalHost \<or> \<not> truthy (id_val (userId p)) \<or> userName p = [] \<or> db p = None \<Longrightarrow>
     handleToggle isExternalHost p now = (if isExternalHost then Alert else Warn)"
  by (auto simp: handleToggle_def)

lemma handleToggle_other:
  "isClaimed p \<Longrightarrow> \<not> isMine p \<Longrightarrow>
     handleToggle isExternalHost p now =
       (if isExternalHost then Alert
        else if \<not> truthy (id_val (userId p)) \<or> userName p = [] \<or> db p = None then Warn
        else Skip)"
  by (simp add: handleToggle_def)

lemma lit_Nil_iff: "lit s = [] \<longleftrightarrow> s = []"
  by (simp add: lit_def)

lemmas eval_cell = lit_Nil_iff isClaimed_def isMine_def slot_def get_prop_def id_val_def RotaCell_props_def
  onSnapshot_def lit_eq_iff alice_def bob_def claimed_by_alice_def unclaimed_by_alice_def

lemma commit_no_write: "\<not> is_write eff \<Longrightarrow> commit eff remote = remote"
  by (cases eff) (simp_all add: is_write_def commit_def)

lemma toggle_settled_no_write:
  "\<not> is_write (handleToggle ext (RotaCell_props a dt tk) now) \<Longrightarrow>
     toggle_settled ext dt tk now (remote, a) = (remote, a)"
  by (simp add: toggle_settled_def Let_def)

text \<open>
  Claim C5. A cell that is claimed and not mine (the state ClaimedByOther: \<open>claimedBy\<close>
  is set and differs from the local identity): \<open>handleToggle\<close> issues no \<open>setDoc\<close>,
  whatever the other inputs are, and the collection and the state of the application
  are the same after the toggle as before.
\<close>

theorem toggle_claimed_by_other_no_write:
  assumes "isClaimed p" and "\<not> isMine p"
  shows "\<not> is_write (handleToggle isExternalHost p now)
     \<and> (\<forall>path i written. handleToggle isExternalHost p now \<noteq> SetDoc path i written)
     \<and> commit (handleToggle isExternalHost p now) remote = remote
     \<and> (p = RotaCell_props a dt tk \<longrightarrow>
          toggle_settled isExternalHost dt tk now (remote, a) = (remote, a))"
proof -
  have nw: "\<not> is_write (handleToggle isExternalHost p now)"
    using assms by (simp add: handleToggle_other is_write_def)
  then have "\<forall>path i written. handleToggle isExternalHost p now \<noteq> SetDoc path i written"
    by (auto simp: is_write_def)
  moreover have "p = RotaCell_props a dt tk \<longrightarrow>
      toggle_settled isExternalHost dt tk now (remote, a) = (remote, a)"
    using nw by (auto simp: toggle_settled_no_write)
  ultimately show ?thesis using nw by (simp add: commit_no_write)
qed

text \<open>Scenario B: Bob toggles the slot that Alice has claimed.\<close>

theorem toggle_claimed_by_other_no_write_witness:
  "isClaimed (RotaCell_props (onSnapshot [(docId jan1 (lit ''Breakfast''), claimed_by_alice)] bob)
       jan1 (lit ''Breakfast''))
   \<and> \<not> isMine (RotaCell_props (onSnapshot [(docId jan1 (lit ''Breakfast''), claimed_by_alice)] bob)
       jan1 (lit ''Breakfast''))
   \<and> handleToggle False
        (RotaCell_props (onSnapshot [(docId jan1 (lit ''Breakfast''), claimed_by_alice)] bob)
           jan1 (lit ''Breakfast'')) 2000 = Skip
   \<and> toggle_settled False jan1 (lit ''Breakfast'') 2000
        ([(docId jan1 (lit ''Breakfast''), claimed_by_alice)],
         onSnapshot [(docId jan1 (lit ''Breakfast''), claimed_by_alice)] bob)
      = ([(docId jan1 (lit ''Breakfast''), claimed_by_alice)],
         onSnapshot [(docId jan1 (lit ''Breakfast''), claimed_by_alice)] bob)"
proof -
  let ?remote = "[(docId jan1 (lit ''Breakfast''), claimed_by_alice)]"
  let ?p = "RotaCell_props (onSnapshot ?remote bob) jan1 (lit ''Breakfast'')"
  have c: "isClaimed ?p" by (simp add: eval_cell)
  have m: "\<not> isMine ?p" by (simp add: eval_cell)
  have s: "handleToggle False ?p 2000 = Skip"
    using c m by (simp add: handleToggle_def) (simp add: eval_cell)
  from toggle_claimed_by_other_no_write [OF c m, of False 2000 ?remote "onSnapshot ?remote bob" jan1 "lit ''Breakfast''"]
  have "toggle_settled False jan1 (lit ''Breakfast'') 2000 (?remote, onSnapshot ?remote bob)
      = (?remote, onSnapshot ?remote bob)" by blast
  with c m s show ?thesis by blast
qed

text \<open>
  Claim C6. When the host is external (the offline mode), or \<open>userId\<close> is \<open>null\<close> or
  empty, or \<open>userName\<close> is empty, or there is no \<open>db\<close>, \<open>handleToggle\<close> returns after its
  alert (offline) or its warning (not ready) without any \<open>setDoc\<close>, and the collection
  and the state of the application are unchanged.
\<close>

theorem toggle_not_ready_rejected:
  assumes "isExternalHost \<or> \<not> truthy (id_val (userId p)) \<or> userName p = [] \<or> db p = None"
  shows "handleToggle isExternalHost p now = (if isExternalHost then Alert else Warn)
     \<and> \<not> is_write (handleToggle isExternalHost p now)
     \<and> commit (handleToggle isExternalHost p now) remote = remote
     \<and> (p = RotaCell_props a dt tk \<longrightarrow>
          toggle_settled isExternalHost dt tk now (remote, a) = (remote, a))"
proof -
  have r: "handleToggle isExternalHost p now = (if isExternalHost then Alert else Warn)"
    using assms by (rule handleToggle_not_ready)
  then have nw: "\<not> is_write (handleToggle isExternalHost p now)"
    by (simp add: is_write_def)
  have "p = RotaCell_props a dt tk \<longrightarrow>
      toggle_settled isExternalHost dt tk now (remote, a) = (remote, a)"
    using nw by (auto simp: toggle_settled_no_write)
  with r nw show ?thesis by (simp add: commit_no_write)
qed

text \<open>The offline mode, and a user who has not set a name yet.\<close>

theorem toggle_not_ready_rejected_witness:
  "handleToggle True (RotaCell_props alice jan1 (lit ''Breakfast'')) 1000 = Alert
   \<and> toggle_settled True jan1 (lit ''Breakfast'') 1000 ([], alice) = ([], alice)
   \<and> app_userName (App_init None) = []
   \<and> handleToggle False (RotaCell_props (App_init None) jan1 (lit ''Breakfast'')) 1000 = Warn
   \<and> toggle_settled False jan1 (lit ''Breakfast'') 1000 ([], App_init None) = ([], App_init None)"
proof -
  have h1: "True \<or> \<not> truthy (id_val (userId (RotaCell_props alice jan1 (lit ''Breakfast''))))
      \<or> userName (RotaCell_props alice jan1 (lit ''Breakfast'')) = []
      \<or> db (RotaCell_props alice jan1 (lit ''Breakfast'')) = None" by simp
  have n: "app_userName (App_init None) = []" by (simp add: App_init_def)
  then have h2: "False \<or> \<not> truthy (id_val (userId (RotaCell_props (App_init None) jan1 (lit ''Breakfast''))))
      \<or> userName (RotaCell_props (App_init None) jan1 (lit ''Breakfast'')) = []
      \<or> db (RotaCell_props (App_init None) jan1 (lit ''Breakfast'')) = None"
    by (simp add: RotaCell_props_def)
  from toggle_not_ready_rejected [OF h1, of 1000 "[]" alice jan1 "lit ''Breakfast''"]
  have a: "handleToggle True (RotaCell_props alice jan1 (lit ''Breakfast'')) 1000 = Alert
      \<and> toggle_settled True jan1 (lit ''Breakfast'') 1000 ([], alice) = ([], alice)" by simp
  from toggle_not_ready_rejected [OF h2, of 1000 "[]" "App_init None" jan1 "lit ''Breakfast''"]
  have b: "handleToggle False (RotaCell_props (App_init None) jan1 (lit ''Breakfast'')) 1000 = Warn
      \<and> toggle_settled False jan1 (lit ''Breakfast'') 1000 ([], App_init None) = ([], App_init None)"
    by simp
  from a b n show ?thesis by blast
qed

section \<open>The local view\<close>

text \<open>
  Claim C7. A snapshot replaces \<open>rotaData\<close>: the new value does not depend on the old
  one. It holds only records of the snapshot whose \<open>claimedBy\<close> is truthy (for a string:
  not empty; \<open>null\<close> and a missing field are not), under their document ids; with the
  ids of the snapshot distinct, as those of a collection are, it holds exactly those
  records, so a record whose \<open>claimedBy\<close> has been cleared is not in it, whatever the old
  value held for that id.
\<close>

theorem onSnapshot_replaces:
  "rotaData (onSnapshot snap a) = rotaData (onSnapshot snap a')
   \<and> (rotaData (onSnapshot snap a) i = Some d \<longrightarrow>
        (i, d) \<in> set snap \<and> truthy (get_prop d (lit ''claimedBy'')))
   \<and> (distinct (map fst snap) \<longrightarrow>
        (rotaData (onSnapshot snap a) i = Some d \<longleftrightarrow>
           (i, d) \<in> set snap \<and> truthy (get_prop d (lit ''claimedBy''))))
   \<and> (distinct (map fst snap) \<longrightarrow> (i, d) \<in> set snap \<longrightarrow>
        \<not> truthy (get_prop d (lit ''claimedBy'')) \<longrightarrow> rotaData (onSnapshot snap a) i = None)
   \<and> (i \<notin> fst ` set snap \<longrightarrow> rotaData (onSnapshot snap a) i = None)
   \<and> truthy (Str s) = (s \<noteq> []) \<and> \<not> truthy Null \<and> \<not> truthy Undefined"
proof -
  have r: "rotaData (onSnapshot snap b) = forEach_doc snap Map.empty" for b
    by (simp add: onSnapshot_def)
  have snd: "forEach_doc snap Map.empty i = Some d \<longrightarrow>
      (i, d) \<in> set snap \<and> truthy (get_prop d (lit ''claimedBy''))"
    using forEach_doc_sound [of snap Map.empty i d] by auto
  have iff: "distinct (map fst snap) \<longrightarrow>
      (forEach_doc snap Map.empty i = Some d \<longleftrightarrow>
         (i, d) \<in> set snap \<and> truthy (get_prop d (lit ''claimedBy'')))"
    by (simp add: forEach_doc_iff)
  have stale: "distinct (map fst snap) \<longrightarrow> (i, d) \<in> set snap \<longrightarrow>
      \<not> truthy (get_prop d (lit ''claimedBy'')) \<longrightarrow> forEach_doc snap Map.empty i = None"
  proof (intro impI)
    assume dist: "distinct (map fst snap)" and mem: "(i, d) \<in> set snap"
      and falsy: "\<not> truthy (get_prop d (lit ''claimedBy''))"
    show "forEach_doc snap Map.empty i = None"
    proof (cases "forEach_doc snap Map.empty i")
      case None
      then show ?thesis .
    next
      case (Some e)
      with forEach_doc_sound [of snap Map.empty i e]
      have e: "(i, e) \<in> set snap" and t: "truthy (get_prop e (lit ''claimedBy''))" by auto
      from dist e mem have "e = d" by (rule eq_key_imp_eq_value)
      with t falsy show ?thesis by simp
    qed
  qed
  have other: "i \<notin> fst ` set snap \<longrightarrow> forEach_doc snap Map.empty i = None"
    by (simp add: forEach_doc_other)
  show ?thesis
    unfolding r
    by (intro conjI, rule refl, rule snd, rule iff, rule stale, rule other) simp_all
qed

text \<open>
  The local view holds a claimed breakfast; the snapshot brings it unclaimed, and a
  claimed lunch.
\<close>

theorem onSnapshot_replaces_witness:
  "distinct (map fst [(lit ''2024-01-01_Breakfast'', unclaimed_by_alice),
                      (lit ''2024-01-01_Lunch'', claimed_by_alice)])
   \<and> rotaData (alice\<lparr>rotaData := [lit ''2024-01-01_Breakfast'' \<mapsto> claimed_by_alice]\<rparr>)
        (lit ''2024-01-01_Breakfast'') = Some claimed_by_alice
   \<and> rotaData (onSnapshot [(lit ''2024-01-01_Breakfast'', unclaimed_by_alice),
                            (lit ''2024-01-01_Lunch'', claimed_by_alice)]
        (alice\<lparr>rotaData := [lit ''2024-01-01_Breakfast'' \<mapsto> claimed_by_alice]\<rparr>))
        (lit ''2024-01-01_Breakfast'') = None
   \<and> rotaData (onSnapshot [(lit ''2024-01-01_Breakfast'', unclaimed_by_alice),
                            (lit ''2024-01-01_Lunch'', claimed_by_alice)]
        (alice\<lparr>rotaData := [lit ''2024-01-01_Breakfast'' \<mapsto> claimed_by_alice]\<rparr>))
        (lit ''2024-01-01_Lunch'') = Some claimed_by_alice"
proof -
  let ?snap = "[(lit ''2024-01-01_Breakfast'', unclaimed_by_alice),
                (lit ''2024-01-01_Lunch'', claimed_by_alice)]"
  let ?a = "alice\<lparr>rotaData := [lit ''2024-01-01_Breakfast'' \<mapsto> claimed_by_alice]\<rparr>"
  have dist: "distinct (map fst ?snap)" by (simp add: lit_eq_iff)
  have old: "rotaData ?a (lit ''2024-01-01_Breakfast'') = Some claimed_by_alice" by simp
  have m1: "(lit ''2024-01-01_Breakfast'', unclaimed_by_alice) \<in> set ?snap" by simp
  have f1: "\<not> truthy (get_prop unclaimed_by_alice (lit ''claimedBy''))"
    by (simp add: get_prop_def unclaimed_by_alice_def lit_eq_iff)
  have m2: "(lit ''2024-01-01_Lunch'', claimed_by_alice) \<in> set ?snap" by simp
  have t2: "truthy (get_prop claimed_by_alice (lit ''claimedBy''))"
    by (simp add: get_prop_def claimed_by_alice_def lit_eq_iff lit_Nil_iff)
  from onSnapshot_replaces [of ?snap ?a ?a "lit ''2024-01-01_Breakfast''" unclaimed_by_alice] dist m1 f1
  have r1: "rotaData (onSnapshot ?snap ?a) (lit ''2024-01-01_Breakfast'') = None" by blast
  from onSnapshot_replaces [of ?snap ?a ?a "lit ''2024-01-01_Lunch''" claimed_by_alice] dist m2 t2
  have r2: "rotaData (onSnapshot ?snap ?a) (lit ''2024-01-01_Lunch'') = Some claimed_by_alice" by blast
  from dist old r1 r2 show ?thesis by blast
qed

text \<open>
  Claim C2, as the code has it. The listener looks at \<open>claimedBy\<close> alone: every record
  of the snapshot with a truthy \<open>claimedBy\<close> is put into \<open>rotaData\<close> as it was received,
  whether its other fields are there or not, and no record is put there whose
  \<open>claimedBy\<close> is not truthy.
\<close>

theorem onSnapshot_keeps_claimed_as_received:
  "(rotaData (onSnapshot snap a) i = Some d \<longrightarrow>
        (i, d) \<in> set snap \<and> truthy (get_prop d (lit ''claimedBy'')))
   \<and> (distinct (map fst snap) \<longrightarrow> (i, d) \<in> set snap \<longrightarrow>
        truthy (get_prop d (lit ''claimedBy'')) \<longrightarrow> rotaData (onSnapshot snap a) i = Some d)"
proof -
  have "forEach_doc snap Map.empty i = Some d \<longrightarrow>
      (i, d) \<in> set snap \<and> truthy (get_prop d (lit ''claimedBy''))"
    using forEach_doc_sound [of snap Map.empty i d] by auto
  moreover have "distinct (map fst snap) \<longrightarrow> (i, d) \<in> set snap \<longrightarrow>
      truthy (get_prop d (lit ''claimedBy'')) \<longrightarrow> forEach_doc snap Map.empty i = Some d"
    by (simp add: forEach_doc_complete)
  ultimately show ?thesis by (simp add: onSnapshot_def)
qed

text \<open>A record with \<open>claimedBy\<close> and \<open>name\<close> and nothing else.\<close>

theorem onSnapshot_keeps_claimed_as_received_witness:
  "distinct (map fst [(lit ''2024-01-01_Dinner'', [lit ''claimedBy'' \<mapsto> Str (lit ''A''), lit ''name'' \<mapsto> Str (lit ''Alice'')])])
   \<and> truthy (get_prop [lit ''claimedBy'' \<mapsto> Str (lit ''A''), lit ''name'' \<mapsto> Str (lit ''Alice'')] (lit ''claimedBy''))
   \<and> get_prop [lit ''claimedBy'' \<mapsto> Str (lit ''A''), lit ''name'' \<mapsto> Str (lit ''Alice'')] (lit ''timestamp'') = Undefined
   \<and> rotaData (onSnapshot [(lit ''2024-01-01_Dinner'', [lit ''claimedBy'' \<mapsto> Str (lit ''A''), lit ''name'' \<mapsto> Str (lit ''Alice'')])] bob)
        (lit ''2024-01-01_Dinner'')
      = Some [lit ''claimedBy'' \<mapsto> Str (lit ''A''), lit ''name'' \<mapsto> Str (lit ''Alice'')]"
proof -
  let ?d = "[lit ''claimedBy'' \<mapsto> Str (lit ''A''), lit ''name'' \<mapsto> Str (lit ''Alice'')]"
  let ?snap = "[(lit ''2024-01-01_Dinner'', ?d)]"
  have dist: "distinct (map fst ?snap)" by simp
  have m: "(lit ''2024-01-01_Dinner'', ?d) \<in> set ?snap" by simp
  have t: "truthy (get_prop ?d (lit ''claimedBy''))"
    by (simp add: get_prop_def lit_eq_iff lit_Nil_iff)
  have u: "get_prop ?d (lit ''timestamp'') = Undefined"
    by (simp add: get_prop_def lit_eq_iff)
  from onSnapshot_keeps_claimed_as_received [of ?snap bob "lit ''2024-01-01_Dinner''" ?d] dist m t
  have "rotaData (onSnapshot ?snap bob) (lit ''2024-01-01_Dinner'') = Some ?d" by blast
  with dist t u show ?thesis by blast
qed

text \<open>
  The claim as the specification words it fails on a record that has \<open>claimedBy\<close> and no
  other field: it is not dropped, and its cell counts as claimed.
\<close>

theorem onSnapshot_partial_record:
  "get_prop [lit ''claimedBy'' \<mapsto> Str (lit ''A'')] (lit ''claimedBy'') = Str (lit ''A'')
   \<and> get_prop [lit ''claimedBy'' \<mapsto> Str (lit ''A'')] (lit ''name'') = Undefined
   \<and> get_prop [lit ''claimedBy'' \<mapsto> Str (lit ''A'')] (lit ''color'') = Undefined
   \<and> get_prop [lit ''claimedBy'' \<mapsto> Str (lit ''A'')] (lit ''timestamp'') = Undefined
   \<and> rotaData (onSnapshot [(docId jan1 (lit ''Breakfast''), [lit ''claimedBy'' \<mapsto> Str (lit ''A'')])] bob)
        (docId jan1 (lit ''Breakfast''))
      = Some [lit ''claimedBy'' \<mapsto> Str (lit ''A'')]
   \<and> isClaimed (RotaCell_props
        (onSnapshot [(docId jan1 (lit ''Breakfast''), [lit ''claimedBy'' \<mapsto> Str (lit ''A'')])] bob)
        jan1 (lit ''Breakfast''))"
  by (simp add: eval_cell)

text \<open>
  Claim C9. For a cell whose \<open>data\<close> come from the listener (the empty object of the
  start is the result for the empty snapshot) and for every \<open>userId\<close>, \<open>null\<close> included,
  \<open>isMine\<close> implies \<open>isClaimed\<close>. So exactly one of the three states holds: neither
  (Unclaimed), both (ClaimedByMe), or \<open>isClaimed\<close> alone (ClaimedByOther).
\<close>

theorem claim_state_exclusive:
  assumes "data p = forEach_doc snap Map.empty"
  shows "(isMine p \<longrightarrow> isClaimed p)
     \<and> \<not> (isMine p \<and> \<not> isClaimed p)
     \<and> ((\<not> isClaimed p \<and> \<not> isMine p) \<or> (isClaimed p \<and> isMine p) \<or> (isClaimed p \<and> \<not> isMine p))"
proof -
  have "isClaimed p" if mine: "isMine p"
  proof (cases "data p (docId (date p) (task p))")
    case None
    then have "get_prop (slot p) (lit ''claimedBy'') = Undefined"
      by (simp add: slot_def get_prop_def)
    with mine show ?thesis
      by (cases "userId p") (simp_all add: isMine_def id_val_def)
  next
    case (Some d)
    with assms have "forEach_doc snap Map.empty (docId (date p) (task p)) = Some d" by simp
    from forEach_doc_sound [OF this] have "truthy (get_prop d (lit ''claimedBy''))" by simp
    with Some show ?thesis by (simp add: isClaimed_def slot_def)
  qed
  then show ?thesis by blast
qed

text \<open>Alice's own claimed slot, and a cell of the start, with \<open>userId\<close> \<open>null\<close>.\<close>

theorem claim_state_exclusive_witness:
  "data (RotaCell_props (onSnapshot [(docId jan1 (lit ''Breakfast''), claimed_by_alice)] alice)
       jan1 (lit ''Breakfast''))
     = forEach_doc [(docId jan1 (lit ''Breakfast''), claimed_by_alice)] Map.empty
   \<and> isMine (RotaCell_props (onSnapshot [(docId jan1 (lit ''Breakfast''), claimed_by_alice)] alice)
       jan1 (lit ''Breakfast''))
   \<and> isClaimed (RotaCell_props (onSnapshot [(docId jan1 (lit ''Breakfast''), claimed_by_alice)] alice)
       jan1 (lit ''Breakfast''))
   \<and> app_userId (App_init None) = None
   \<and> \<not> isMine (RotaCell_props (onSnapshot [] (App_init None)) jan1 (lit ''Breakfast''))
   \<and> \<not> isClaimed (RotaCell_props (onSnapshot [] (App_init None)) jan1 (lit ''Breakfast''))"
proof -
  let ?snap = "[(docId jan1 (lit ''Breakfast''), claimed_by_alice)]"
  let ?p = "RotaCell_props (onSnapshot ?snap alice) jan1 (lit ''Breakfast'')"
  let ?q = "RotaCell_props (onSnapshot [] (App_init None)) jan1 (lit ''Breakfast'')"
  have d: "data ?p = forEach_doc ?snap Map.empty"
    by (simp add: RotaCell_props_def onSnapshot_def)
  have m: "isMine ?p" by (simp add: eval_cell)
  from claim_state_exclusive [OF d] m have c: "isClaimed ?p" by blast
  have e: "data ?q = forEach_doc [] Map.empty"
    by (simp add: RotaCell_props_def onSnapshot_def)
  have nc: "\<not> isClaimed ?q" by (simp add: eval_cell)
  from claim_state_exclusive [OF e] nc have nm: "\<not> isMine ?q" by blast
  have u: "app_userId (App_init None) = None" by (simp add: App_init_def)
  from d m c u nm nc show ?thesis by blast
qed

section \<open>The calendar\<close>

text \<open>
  \<open>YearFromDay\<close> computes the year of the ECMAScript specification: the year \<open>y\<close> with
  \<open>DayFromYear y \<le> d < DayFromYear (y + 1)\<close>.
\<close>

lemma div_bounds:
  fixes x k :: int
  assumes "0 < k"
  shows "k * (x div k) \<le> x" and "x < k * (x div k) + k"
proof -
  have e: "k * (x div k) + x mod k = x" by (rule mult_div_mod_eq)
  have l: "0 \<le> x mod k" using assms by simp
  have u: "x mod k < k" using assms by simp
  from e l show "k * (x div k) \<le> x" by linarith
  from e u show "x < k * (x div k) + k" by linarith
qed

lemma DayFromYear_bounds:
  "146097 * (y - 1970) - 506 \<le> 400 * DayFromYear y"
  "400 * DayFromYear y \<le> 146097 * (y - 1970) + 589"
proof -
  define a where "a = (y - 1969) div 4"
  define b where "b = (y - 1901) div 100"
  define c where "c = (y - 1601) div 400"
  have a: "4 * a \<le> y - 1969" "y - 1969 < 4 * a + 4"
    unfolding a_def by (rule div_bounds, simp)+
  have b: "100 * b \<le> y - 1901" "y - 1901 < 100 * b + 100"
    unfolding b_def by (rule div_bounds, simp)+
  have c: "400 * c \<le> y - 1601" "y - 1601 < 400 * c + 400"
    unfolding c_def by (rule div_bounds, simp)+
  have e: "DayFromYear y = 365 * (y - 1970) + a - b + c"
    by (simp add: DayFromYear_def a_def b_def c_def)
  have "y - 1972 \<le> 4 * a" using a(2) by simp
  then have "100 * (y - 1972) \<le> 400 * a" by simp
  moreover have "- (4 * (y - 1901)) \<le> - (400 * b)" using b(1) by simp
  moreover have "y - 2000 \<le> 400 * c" using c(2) by simp
  ultimately show "146097 * (y - 1970) - 506 \<le> 400 * DayFromYear y"
    unfolding e by (simp add: algebra_simps)
  have "400 * a \<le> 100 * (y - 1969)" using a(1) by simp
  moreover have "y - 2000 \<le> 100 * b" using b(2) by simp
  then have "- (400 * b) \<le> - (4 * (y - 2000))" by simp
  moreover have "400 * c \<le> y - 1601" by (rule c(1))
  ultimately show "400 * DayFromYear y \<le> 146097 * (y - 1970) + 589"
    unfolding e by (simp add: algebra_simps)
qed

lemma YearFromDay_spec:
  "DayFromYear (YearFromDay d) \<le> d \<and> d < DayFromYear (YearFromDay d + 1)"
proof -
  define q where "q = (d * 400) div 146097"
  define y where "y = 1970 + q"
  have "146097 * q \<le> d * 400" "d * 400 < 146097 * q + 146097"
    unfolding q_def by (rule div_bounds, simp)+
  then have q: "146097 * (y - 1970) \<le> 400 * d" "400 * d < 146097 * (y - 1970) + 146097"
    by (simp_all add: y_def)
  have r: "YearFromDay d = (if DayFromYear (y + 1) \<le> d then y + 1
      else if d < DayFromYear y then y - 1 else y)"
    by (simp add: YearFromDay_def y_def q_def Let_def)
  consider (up) "DayFromYear (y + 1) \<le> d"
    | (down) "\<not> DayFromYear (y + 1) \<le> d" "d < DayFromYear y"
    | (same) "\<not> DayFromYear (y + 1) \<le> d" "\<not> d < DayFromYear y"
    by blast
  then show ?thesis
  proof cases
    case up
    have "400 * d < 400 * DayFromYear (y + 1 + 1)"
      using DayFromYear_bounds(1) [of "y + 1 + 1"] q by (simp add: algebra_simps)
    then have "d < DayFromYear (y + 1 + 1)" by simp
    with up r show ?thesis by simp
  next
    case down
    have "400 * DayFromYear (y - 1) \<le> 400 * d"
      using DayFromYear_bounds(2) [of "y - 1"] q by (simp add: algebra_simps)
    then have "DayFromYear (y - 1) \<le> d" by simp
    with down r show ?thesis by simp
  next
    case same
    with r show ?thesis by simp
  qed
qed

lemma MonthFromDay_range: "0 \<le> MonthFromDay d \<and> MonthFromDay d \<le> 11"
  by (simp add: MonthFromDay_def Let_def)















lemmas eval_date = formatDate_def getFullYear_def YearFromDay_def DayFromYear_def getMonth_def
  MonthFromDay_def DayWithinYear_def InLeapYear_def getDate_def DateFromDay_def monthStart_def
  padStart2_def Number_toString_def digits_small digits_large lit_def Let_def getDay_def

lemma formatDate_examples:
  "formatDate \<lparr>day = 19725, msInDay = t\<rparr> = lit ''2024-01-03''"
  "formatDate \<lparr>day = 19723, msInDay = t\<rparr> = lit ''2024-01-01''"
  "formatDate \<lparr>day = 19772, msInDay = t\<rparr> = lit ''2024-02-19''"
  by (simp_all add: eval_date)








section \<open>The format of a date and of a document id\<close>

text \<open>
  A year has 365 days, or 366 when it is a leap year; so the day within the year, the
  month and the day of the month are in their ranges, and \<open>formatDate\<close> gives four
  digits, a hyphen, two digits, a hyphen and two digits for a year from 1000 to 9999.
\<close>

lemma div_succ:
  fixes x k :: int
  assumes "1 < k"
  shows "(x + 1) div k = x div k + (if (x + 1) mod k = 0 then 1 else 0)"
proof -
  define q where "q = x div k"
  define r where "r = x mod k"
  have x: "x = k * q + r" unfolding q_def r_def by (simp add: mult_div_mod_eq)
  have r: "0 \<le> r" "r < k" unfolding r_def using assms by simp_all
  show ?thesis
  proof (cases "r = k - 1")
    case True
    then have e: "x + 1 = k * (q + 1) + 0" using x by (simp add: algebra_simps)
    have "(x + 1) div k = q + 1"
      using e assms by (intro int_div_pos_eq [of _ _ _ 0]) simp_all
    moreover have "(x + 1) mod k = 0"
      using e assms by (intro int_mod_pos_eq [of _ _ "q + 1"]) simp_all
    ultimately show ?thesis by (simp add: q_def)
  next
    case False
    then have lt: "r + 1 < k" using r by simp
    have e: "x + 1 = k * q + (r + 1)" using x by simp
    have "(x + 1) div k = q"
      using e lt r by (intro int_div_pos_eq [of _ _ _ "r + 1"]) simp_all
    moreover have "(x + 1) mod k = r + 1"
      using e lt r by (intro int_mod_pos_eq [of _ _ q]) simp_all
    ultimately show ?thesis using r by (simp add: q_def)
  qed
qed

lemma mod_shift:
  fixes y k c :: int
  shows "(y - k * c) mod k = y mod k"
proof -
  have "y - k * c = y + k * (- c)" by simp
  then show ?thesis by (simp only: mod_mult_self2)
qed

lemma leap_sum:
  assumes "C \<Longrightarrow> B" and "B \<Longrightarrow> A"
  shows "(if A \<and> (\<not> B \<or> C) then 1 else 0) =
     (if A then 1 else 0) - (if B then 1 else 0) + (if C then (1::int) else 0)"
  using assms by (cases A; cases B; cases C) simp_all

lemma dvd_mod_0:
  fixes y :: int
  assumes "y mod m = 0" and "k dvd m"
  shows "y mod k = 0"
proof -
  from assms(1) have "m dvd y" by (simp add: mod_eq_0_iff_dvd)
  with assms(2) have "k dvd y" by (rule dvd_trans)
  then show ?thesis by (simp add: mod_eq_0_iff_dvd)
qed

lemma DayFromYear_step: "DayFromYear (y + 1) = DayFromYear y + 365 + InLeapYear y"
proof -
  define p where "p = (y - 1969) div 4"
  define q where "q = (y - 1901) div 100"
  define r where "r = (y - 1601) div 400"
  define iA :: int where "iA = (if y mod 4 = 0 then 1 else 0)"
  define iB :: int where "iB = (if y mod 100 = 0 then 1 else 0)"
  define iC :: int where "iC = (if y mod 400 = 0 then 1 else 0)"
  have m4: "(y - 1969 + 1) mod 4 = y mod 4"
    using mod_shift [of y 4 492] by simp
  have m100: "(y - 1901 + 1) mod 100 = y mod 100"
    using mod_shift [of y 100 19] by simp
  have m400: "(y - 1601 + 1) mod 400 = y mod 400"
    using mod_shift [of y 400 4] by simp
  have a: "(y - 1969 + 1) div 4 = p + iA"
    unfolding p_def iA_def using div_succ [of 4 "y - 1969"] by (simp only: m4)
  have b: "(y - 1901 + 1) div 100 = q + iB"
    unfolding q_def iB_def using div_succ [of 100 "y - 1901"] by (simp only: m100)
  have c: "(y - 1601 + 1) div 400 = r + iC"
    unfolding r_def iC_def using div_succ [of 400 "y - 1601"] by (simp only: m400)
  have d: "y mod 400 = 0 \<Longrightarrow> y mod 100 = 0"
    by (erule dvd_mod_0) simp
  have e: "y mod 100 = 0 \<Longrightarrow> y mod 4 = 0"
    by (erule dvd_mod_0) simp
  have L: "InLeapYear y = iA - iB + iC"
    unfolding InLeapYear_def iA_def iB_def iC_def using d e by (rule leap_sum)
  have s: "y + 1 - 1969 = y - 1969 + 1" "y + 1 - 1901 = y - 1901 + 1" "y + 1 - 1601 = y - 1601 + 1"
    "y + 1 - 1970 = y - 1970 + 1"
    by simp_all
  have n: "DayFromYear (y + 1) = 365 * (y - 1970 + 1) + (p + iA) - (q + iB) + (r + iC)"
    by (simp only: DayFromYear_def s a b c)
  have o: "DayFromYear y = 365 * (y - 1970) + p - q + r"
    by (simp only: DayFromYear_def p_def q_def r_def)
  show ?thesis unfolding n o L by (simp add: algebra_simps)
qed

lemma DayWithinYear_range:
  "0 \<le> DayWithinYear d \<and> DayWithinYear d < 365 + InLeapYear (YearFromDay d)"
  using YearFromDay_spec [of d] DayFromYear_step [of "YearFromDay d"]
  by (simp add: DayWithinYear_def)

lemma date_in_month:
  fixes w l :: int
  assumes "0 \<le> w" and "w < 365 + l" and "l = 0 \<or> l = 1"
  shows "1 \<le> w - monthStart
           (if w < 31 then 0 else if w < 59 + l then 1 else if w < 90 + l then 2
            else if w < 120 + l then 3 else if w < 151 + l then 4 else if w < 181 + l then 5
            else if w < 212 + l then 6 else if w < 243 + l then 7 else if w < 273 + l then 8
            else if w < 304 + l then 9 else if w < 334 + l then 10 else 11) l + 1
      \<and> w - monthStart
           (if w < 31 then 0 else if w < 59 + l then 1 else if w < 90 + l then 2
            else if w < 120 + l then 3 else if w < 151 + l then 4 else if w < 181 + l then 5
            else if w < 212 + l then 6 else if w < 243 + l then 7 else if w < 273 + l then 8
            else if w < 304 + l then 9 else if w < 334 + l then 10 else 11) l + 1 \<le> 31"
  using assms by (auto simp: monthStart_def)

lemma DateFromDay_range: "1 \<le> DateFromDay d \<and> DateFromDay d \<le> 31"
proof -
  have l: "InLeapYear (YearFromDay d) = 0 \<or> InLeapYear (YearFromDay d) = 1"
    by (simp add: InLeapYear_def)
  from DayWithinYear_range [of d] l show ?thesis
    unfolding DateFromDay_def MonthFromDay_def Let_def
    by (intro date_in_month) simp_all
qed

lemma digits_2: "10 \<le> n \<Longrightarrow> n < 100 \<Longrightarrow>
    digits n = [of_nat (48 + n div 10), of_nat (48 + n mod 10)]"
  by (simp add: digits_large digits_small)

lemma digits_4: "1000 \<le> n \<Longrightarrow> n < 10000 \<Longrightarrow>
    digits n = [of_nat (48 + n div 1000), of_nat (48 + n div 100 mod 10),
                of_nat (48 + n div 10 mod 10), of_nat (48 + n mod 10)]"
proof -
  assume n: "1000 \<le> n" "n < 10000"
  have a: "digits n = digits (n div 10) @ [of_nat (48 + n mod 10)]"
    using n by (simp add: digits_large)
  have b: "digits (n div 10) = digits (n div 10 div 10) @ [of_nat (48 + n div 10 mod 10)]"
    using n by (intro digits_large) simp
  have c: "digits (n div 100) = [of_nat (48 + n div 100 div 10), of_nat (48 + n div 100 mod 10)]"
    using n by (intro digits_2) simp_all
  have d: "n div 10 div 10 = n div 100"
    by (simp add: div_mult2_eq [symmetric])
  have e: "n div 100 div 10 = n div 1000"
    by (simp add: div_mult2_eq [symmetric])
  have "digits n = [of_nat (48 + n div 100 div 10), of_nat (48 + n div 100 mod 10)]
      @ [of_nat (48 + n div 10 mod 10)] @ [of_nat (48 + n mod 10)]"
    by (simp only: a b d c append_assoc)
  then show ?thesis by (simp add: e)
qed

lemma two_digits:
  assumes "1 \<le> k" and "k \<le> 31"
  shows "padStart2 (Number_toString k) = [of_nat (48 + nat k div 10), of_nat (48 + nat k mod 10)]"
proof (cases "k < 10")
  case True
  with assms have "Number_toString k = [of_nat (48 + nat k)]"
    by (simp add: Number_toString_def digits_small)
  with True assms show ?thesis by (simp add: padStart2_def)
next
  case False
  with assms have "Number_toString k = [of_nat (48 + nat k div 10), of_nat (48 + nat k mod 10)]"
    by (simp add: Number_toString_def digits_2)
  then show ?thesis by (simp add: padStart2_def)
qed

lemma formatDate_parts:
  "formatDate dt = Number_toString (getFullYear dt) @
     (let m = nat (getMonth dt + 1); dd = nat (getDate dt)
      in [45, of_nat (48 + m div 10), of_nat (48 + m mod 10), 45,
          of_nat (48 + dd div 10), of_nat (48 + dd mod 10)])"
proof -
  have "1 \<le> getMonth dt + 1 \<and> getMonth dt + 1 \<le> 31"
    using MonthFromDay_range [of "day dt"] by (simp add: getMonth_def)
  then have m: "padStart2 (Number_toString (getMonth dt + 1)) =
      [of_nat (48 + nat (getMonth dt + 1) div 10), of_nat (48 + nat (getMonth dt + 1) mod 10)]"
    by (intro two_digits) simp_all
  have "1 \<le> getDate dt \<and> getDate dt \<le> 31"
    using DateFromDay_range [of "day dt"] by (simp add: getDate_def)
  then have d: "padStart2 (Number_toString (getDate dt)) =
      [of_nat (48 + nat (getDate dt) div 10), of_nat (48 + nat (getDate dt) mod 10)]"
    by (intro two_digits) simp_all
  show ?thesis
    unfolding formatDate_def Let_def m d by (simp add: lit_def)
qed

lemma formatDate_shape:
  assumes "1000 \<le> getFullYear dt" and "getFullYear dt \<le> 9999"
  shows "formatDate dt =
     (let y = nat (getFullYear dt); m = nat (getMonth dt + 1); dd = nat (getDate dt)
      in [of_nat (48 + y div 1000), of_nat (48 + y div 100 mod 10),
          of_nat (48 + y div 10 mod 10), of_nat (48 + y mod 10), 45,
          of_nat (48 + m div 10), of_nat (48 + m mod 10), 45,
          of_nat (48 + dd div 10), of_nat (48 + dd mod 10)])"
proof -
  have y: "Number_toString (getFullYear dt) =
      [of_nat (48 + nat (getFullYear dt) div 1000), of_nat (48 + nat (getFullYear dt) div 100 mod 10),
       of_nat (48 + nat (getFullYear dt) div 10 mod 10), of_nat (48 + nat (getFullYear dt) mod 10)]"
    using assms by (simp add: Number_toString_def digits_4)
  have "1 \<le> getMonth dt + 1 \<and> getMonth dt + 1 \<le> 31"
    using MonthFromDay_range [of "day dt"] by (simp add: getMonth_def)
  then have m: "padStart2 (Number_toString (getMonth dt + 1)) =
      [of_nat (48 + nat (getMonth dt + 1) div 10), of_nat (48 + nat (getMonth dt + 1) mod 10)]"
    by (intro two_digits) simp_all
  have "1 \<le> getDate dt \<and> getDate dt \<le> 31"
    using DateFromDay_range [of "day dt"] by (simp add: getDate_def)
  then have d: "padStart2 (Number_toString (getDate dt)) =
      [of_nat (48 + nat (getDate dt) div 10), of_nat (48 + nat (getDate dt) mod 10)]"
    by (intro two_digits) simp_all
  show ?thesis
    unfolding formatDate_def Let_def y m d by (simp add: lit_def)
qed

lemma replace_whitespace_length: "length (replace_whitespace s) = length s"
  by (simp add: replace_whitespace_def)

lemma replace_whitespace_nth:
  "i < length s \<Longrightarrow>
     replace_whitespace s ! i = (if is_whitespace (s ! i) then 95 else s ! i)"
  by (simp add: replace_whitespace_def)

lemma is_whitespace_space: "is_whitespace 32"
  by (simp add: is_whitespace_def)

lemma replace_whitespace_example:
  "replace_whitespace (lit ''Night shift'') = lit ''Night_shift''"
  "replace_whitespace (lit ''Breakfast'') = lit ''Breakfast''"
  "replace_whitespace (lit ''Lunch'') = lit ''Lunch''"
  "replace_whitespace (lit ''Dinner'') = lit ''Dinner''"
  by (simp_all add: replace_whitespace_def is_whitespace_def lit_def)

lemma TASKS_no_whitespace: "map replace_whitespace TASKS = TASKS"
  by (simp add: TASKS_def replace_whitespace_example)

section \<open>Claiming and unclaiming a slot\<close>

lemma lit_append: "lit a @ lit b = lit (a @ b)"
  by (simp add: lit_def)

lemma docId_example: "docId jan1 (lit ''Breakfast'') = lit ''2024-01-01_Breakfast''"
  by (simp add: docId_def jan1_def formatDate_examples replace_whitespace_example lit_append)

lemma color_example: "stringToHslColor (lit ''Alice'') = lit ''hsl(88, 70%, 50%)''"
  by (simp add: eval_color)

lemma claim_fields_dom:
  "dom [lit ''claimedBy'' \<mapsto> a, lit ''name'' \<mapsto> b, lit ''color'' \<mapsto> c, lit ''timestamp'' \<mapsto> d]
     = {lit ''claimedBy'', lit ''name'', lit ''color'', lit ''timestamp''}"
  by auto

lemma scenario_A_toggle:
  "handleToggle False (RotaCell_props alice jan1 (lit ''Breakfast'')) 1000 =
     SetDoc ROTA_COLLECTION_PATH (lit ''2024-01-01_Breakfast'') claimed_by_alice"
proof -
  have c: "\<not> isClaimed (RotaCell_props alice jan1 (lit ''Breakfast''))"
    by (simp add: eval_cell)
  have m: "\<not> isMine (RotaCell_props alice jan1 (lit ''Breakfast''))"
    by (simp add: eval_cell)
  show ?thesis
    using c m
    by (simp add: handleToggle_def)
       (simp add: RotaCell_props_def alice_def id_val_def lit_Nil_iff docId_example
          app_userColor_def color_example claimed_by_alice_def)
qed

lemma unclaim_update:
  "claimed_by_alice(lit ''claimedBy'' \<mapsto> Null, lit ''name'' \<mapsto> Null, lit ''color'' \<mapsto> Null)
     = unclaimed_by_alice"
  by (rule ext) (simp add: claimed_by_alice_def unclaimed_by_alice_def lit_eq_iff)

lemma scenario_C_toggle:
  "handleToggle False
     (RotaCell_props (onSnapshot [(lit ''2024-01-01_Breakfast'', claimed_by_alice)] alice)
        jan1 (lit ''Breakfast'')) 2000 =
     SetDoc ROTA_COLLECTION_PATH (lit ''2024-01-01_Breakfast'')
       [lit ''claimedBy'' \<mapsto> Null, lit ''name'' \<mapsto> Null, lit ''color'' \<mapsto> Null]"
proof -
  let ?p = "RotaCell_props (onSnapshot [(lit ''2024-01-01_Breakfast'', claimed_by_alice)] alice)
        jan1 (lit ''Breakfast'')"
  have m: "isMine ?p"
    by (simp add: isMine_def slot_def RotaCell_props_def onSnapshot_def docId_example)
       (simp add: get_prop_def claimed_by_alice_def alice_def id_val_def lit_eq_iff lit_Nil_iff)
  show ?thesis
    using m
    by (simp add: handleToggle_def)
       (simp add: RotaCell_props_def onSnapshot_def alice_def id_val_def lit_Nil_iff docId_example)
qed

text \<open>
  Claim C8, as the code has it. For a cell that is not claimed, with the host not
  external, a non-empty \<open>userId\<close> and \<open>userName\<close> and a \<open>db\<close>, \<open>handleToggle\<close> issues one
  \<open>setDoc\<close> with \<open>merge: true\<close>, on the document whose id is the formatted date, an
  underscore and the task name with every whitespace character replaced by an
  underscore. The formatted date is the year in decimal, as many digits as it has, a
  hyphen, the month in two digits, a hyphen and the day in two digits: \<open>YYYY-MM-DD\<close>
  when the year is from 1000 to 9999. The record written
  has exactly the four fields \<open>claimedBy\<close>, \<open>name\<close>, \<open>color\<close> and \<open>timestamp\<close>, holding the
  user's id, the user's name, the user's colour and the current time; for a cell of
  the application the colour is \<open>stringToHslColor\<close> of the name and the collection is
  the rota collection.
\<close>

theorem handleToggle_claims_unclaimed:
  assumes "\<not> isExternalHost" and "userId p = Some u" and "u \<noteq> []" and "userName p \<noteq> []"
    and "db p = Some fs" and "\<not> isClaimed p"
  shows "handleToggle isExternalHost p now =
       SetDoc (collectionPath p)
         (formatDate (date p) @ lit ''_'' @ replace_whitespace (task p))
         [lit ''claimedBy'' \<mapsto> Str u, lit ''name'' \<mapsto> Str (userName p),
          lit ''color'' \<mapsto> Str (userColor p), lit ''timestamp'' \<mapsto> Num now]
     \<and> dom [lit ''claimedBy'' \<mapsto> Str u, lit ''name'' \<mapsto> Str (userName p),
            lit ''color'' \<mapsto> Str (userColor p), lit ''timestamp'' \<mapsto> Num now]
         = {lit ''claimedBy'', lit ''name'', lit ''color'', lit ''timestamp''}
     \<and> length (replace_whitespace (task p)) = length (task p)
     \<and> (\<forall>i<length (task p).
          replace_whitespace (task p) ! i = (if is_whitespace (task p ! i) then 95 else task p ! i))
     \<and> (1000 \<le> getFullYear (date p) \<and> getFullYear (date p) \<le> 9999 \<longrightarrow>
          formatDate (date p) =
            (let y = nat (getFullYear (date p)); m = nat (getMonth (date p) + 1);
                 dd = nat (getDate (date p))
             in [of_nat (48 + y div 1000), of_nat (48 + y div 100 mod 10),
                 of_nat (48 + y div 10 mod 10), of_nat (48 + y mod 10), 45,
                 of_nat (48 + m div 10), of_nat (48 + m mod 10), 45,
                 of_nat (48 + dd div 10), of_nat (48 + dd mod 10)]))
     \<and> formatDate (date p) = Number_toString (getFullYear (date p)) @
          (let m = nat (getMonth (date p) + 1); dd = nat (getDate (date p))
           in [45, of_nat (48 + m div 10), of_nat (48 + m mod 10), 45,
               of_nat (48 + dd div 10), of_nat (48 + dd mod 10)])
     \<and> (p = RotaCell_props a dt tk \<longrightarrow>
          userColor p = stringToHslColor (userName p)
          \<and> collectionPath p = ROTA_COLLECTION_PATH
          \<and> commit (handleToggle isExternalHost p now) remote =
              setDoc_merge remote (docId dt tk)
                [lit ''claimedBy'' \<mapsto> Str u, lit ''name'' \<mapsto> Str (userName p),
                 lit ''color'' \<mapsto> Str (userColor p), lit ''timestamp'' \<mapsto> Num now])"
proof -
  have t: "truthy (id_val (userId p))" using assms(2,3) by (simp add: id_val_def)
  have nm: "\<not> isMine p" using t assms(6) ready_mine_claimed by blast
  have w: "handleToggle isExternalHost p now =
       SetDoc (collectionPath p)
         (formatDate (date p) @ lit ''_'' @ replace_whitespace (task p))
         [lit ''claimedBy'' \<mapsto> Str u, lit ''name'' \<mapsto> Str (userName p),
          lit ''color'' \<mapsto> Str (userColor p), lit ''timestamp'' \<mapsto> Num now]"
    using assms nm by (simp add: handleToggle_def docId_def id_val_def)
  have f: "1000 \<le> getFullYear (date p) \<and> getFullYear (date p) \<le> 9999 \<longrightarrow>
          formatDate (date p) =
            (let y = nat (getFullYear (date p)); m = nat (getMonth (date p) + 1);
                 dd = nat (getDate (date p))
             in [of_nat (48 + y div 1000), of_nat (48 + y div 100 mod 10),
                 of_nat (48 + y div 10 mod 10), of_nat (48 + y mod 10), 45,
                 of_nat (48 + m div 10), of_nat (48 + m mod 10), 45,
                 of_nat (48 + dd div 10), of_nat (48 + dd mod 10)])"
    using formatDate_shape [of "date p"] by blast
  have r: "\<forall>i<length (task p).
          replace_whitespace (task p) ! i = (if is_whitespace (task p ! i) then 95 else task p ! i)"
    by (simp add: replace_whitespace_nth)
  have app: "p = RotaCell_props a dt tk \<longrightarrow>
          userColor p = stringToHslColor (userName p)
          \<and> collectionPath p = ROTA_COLLECTION_PATH
          \<and> commit (handleToggle isExternalHost p now) remote =
              setDoc_merge remote (docId dt tk)
                [lit ''claimedBy'' \<mapsto> Str u, lit ''name'' \<mapsto> Str (userName p),
                 lit ''color'' \<mapsto> Str (userColor p), lit ''timestamp'' \<mapsto> Num now]"
  proof (intro impI conjI)
    assume p: "p = RotaCell_props a dt tk"
    show "userColor p = stringToHslColor (userName p)"
      by (simp add: p RotaCell_props_def app_userColor_def)
    show c: "collectionPath p = ROTA_COLLECTION_PATH"
      by (simp add: p RotaCell_props_def)
    have "docId dt tk = formatDate (date p) @ lit ''_'' @ replace_whitespace (task p)"
      by (simp add: p RotaCell_props_def docId_def)
    then show "commit (handleToggle isExternalHost p now) remote =
        setDoc_merge remote (docId dt tk)
          [lit ''claimedBy'' \<mapsto> Str u, lit ''name'' \<mapsto> Str (userName p),
           lit ''color'' \<mapsto> Str (userColor p), lit ''timestamp'' \<mapsto> Num now]"
      unfolding w by (simp add: commit_def c)
  qed
  note g = formatDate_parts [of "date p"]
  from w claim_fields_dom replace_whitespace_length r f g app show ?thesis
    by (intro conjI) assumption+
qed

text \<open>Scenario A: Alice claims the breakfast of 2024-01-01 at time 1000.\<close>

theorem handleToggle_claims_unclaimed_witness:
  "userId (RotaCell_props alice jan1 (lit ''Breakfast'')) = Some (lit ''A'')
   \<and> userName (RotaCell_props alice jan1 (lit ''Breakfast'')) = lit ''Alice''
   \<and> \<not> isClaimed (RotaCell_props alice jan1 (lit ''Breakfast''))
   \<and> getFullYear jan1 = 2024
   \<and> formatDate jan1 = lit ''2024-01-01''
   \<and> handleToggle False (RotaCell_props alice jan1 (lit ''Breakfast'')) 1000 =
       SetDoc ROTA_COLLECTION_PATH (lit ''2024-01-01_Breakfast'')
         [lit ''claimedBy'' \<mapsto> Str (lit ''A''), lit ''name'' \<mapsto> Str (lit ''Alice''),
          lit ''color'' \<mapsto> Str (lit ''hsl(88, 70%, 50%)''), lit ''timestamp'' \<mapsto> Num 1000]"
proof -
  let ?p = "RotaCell_props alice jan1 (lit ''Breakfast'')"
  have h1: "\<not> False" by simp
  have h2: "userId ?p = Some (lit ''A'')" by (simp add: RotaCell_props_def alice_def)
  have h3: "lit ''A'' \<noteq> []" by (simp add: lit_Nil_iff)
  have n: "userName ?p = lit ''Alice''" by (simp add: RotaCell_props_def alice_def)
  then have h4: "userName ?p \<noteq> []" by (simp add: lit_Nil_iff)
  have h5: "db ?p = Some Firestore" by (simp add: RotaCell_props_def alice_def)
  have h6: "\<not> isClaimed ?p" by (simp add: eval_cell)
  have y: "getFullYear jan1 = 2024"
    by (simp add: jan1_def getFullYear_def YearFromDay_def DayFromYear_def)
  have fd: "formatDate jan1 = lit ''2024-01-01''"
    by (simp add: jan1_def formatDate_examples)
  have dt: "date ?p = jan1" and tk: "task ?p = lit ''Breakfast''"
    by (simp_all add: RotaCell_props_def)
  note T = handleToggle_claims_unclaimed [OF h1 h2 h3 h4 h5 h6, of 1000 alice jan1 "lit ''Breakfast''" "[]"]
  from T have col: "userColor ?p = stringToHslColor (userName ?p)"
    and path: "collectionPath ?p = ROTA_COLLECTION_PATH" by blast+
  from T have "handleToggle False ?p 1000 =
       SetDoc (collectionPath ?p)
         (formatDate (date ?p) @ lit ''_'' @ replace_whitespace (task ?p))
         [lit ''claimedBy'' \<mapsto> Str (lit ''A''), lit ''name'' \<mapsto> Str (userName ?p),
          lit ''color'' \<mapsto> Str (userColor ?p), lit ''timestamp'' \<mapsto> Num 1000]"
    by (rule conjunct1)
  then have w: "handleToggle False ?p 1000 =
       SetDoc ROTA_COLLECTION_PATH (lit ''2024-01-01_Breakfast'')
         [lit ''claimedBy'' \<mapsto> Str (lit ''A''), lit ''name'' \<mapsto> Str (lit ''Alice''),
          lit ''color'' \<mapsto> Str (lit ''hsl(88, 70%, 50%)''), lit ''timestamp'' \<mapsto> Num 1000]"
    unfolding path col n dt tk fd color_example
    by (simp add: replace_whitespace_example lit_append)
  from h2 n h6 y fd w show ?thesis by (intro conjI)
qed

text \<open>
  The claim as the specification words it names the fields \<open>claimantName\<close>,
  \<open>claimantColor\<close> and \<open>claimedAt\<close>; the record Alice writes has none of them: its name,
  colour and time are under \<open>name\<close>, \<open>color\<close> and \<open>timestamp\<close>.
\<close>

theorem handleToggle_claim_wire_fields:
  "handleToggle False (RotaCell_props alice jan1 (lit ''Breakfast'')) 1000 =
     SetDoc ROTA_COLLECTION_PATH (lit ''2024-01-01_Breakfast'') claimed_by_alice
   \<and> get_prop claimed_by_alice (lit ''claimedBy'') = Str (lit ''A'')
   \<and> get_prop claimed_by_alice (lit ''claimantName'') = Undefined
   \<and> get_prop claimed_by_alice (lit ''claimantColor'') = Undefined
   \<and> get_prop claimed_by_alice (lit ''claimedAt'') = Undefined
   \<and> get_prop claimed_by_alice (lit ''name'') = Str (lit ''Alice'')
   \<and> get_prop claimed_by_alice (lit ''color'') = Str (lit ''hsl(88, 70%, 50%)'')
   \<and> get_prop claimed_by_alice (lit ''timestamp'') = Num 1000"
  by (simp add: scenario_A_toggle) (simp add: get_prop_def claimed_by_alice_def lit_eq_iff)

text \<open>
  Claim C1, evaluated. Alice toggles the unclaimed breakfast of 2024-01-01 at time 1000
  and, once the store and her view have settled, again at time 2000. The slot is back
  to unclaimed in her view and \<open>claimedBy\<close>, \<open>name\<close> and \<open>color\<close> of the stored record are
  \<open>null\<close>, but its \<open>timestamp\<close> is still 1000: the write of the unclaim names three of
  the four fields that the write of the claim has set.
\<close>

theorem toggle_twice_leaves_timestamp:
  "toggle_settled False jan1 (lit ''Breakfast'') 1000 ([], alice)
     = ([(lit ''2024-01-01_Breakfast'', claimed_by_alice)],
        onSnapshot [(lit ''2024-01-01_Breakfast'', claimed_by_alice)] alice)
   \<and> fst (toggle_settled False jan1 (lit ''Breakfast'') 2000
        (toggle_settled False jan1 (lit ''Breakfast'') 1000 ([], alice)))
     = [(lit ''2024-01-01_Breakfast'', unclaimed_by_alice)]
   \<and> get_prop unclaimed_by_alice (lit ''claimedBy'') = Null
   \<and> get_prop unclaimed_by_alice (lit ''name'') = Null
   \<and> get_prop unclaimed_by_alice (lit ''color'') = Null
   \<and> get_prop unclaimed_by_alice (lit ''timestamp'') = Num 1000
   \<and> rotaData (snd (toggle_settled False jan1 (lit ''Breakfast'') 2000
        (toggle_settled False jan1 (lit ''Breakfast'') 1000 ([], alice))))
        (lit ''2024-01-01_Breakfast'') = None"
proof -
  let ?k = "lit ''2024-01-01_Breakfast''"
  let ?a1 = "onSnapshot [(?k, claimed_by_alice)] alice"
  have l0: "listening False alice"
    by (simp add: listening_def alice_def id_val_def lit_Nil_iff)
  have l1: "listening False ?a1"
    by (simp add: listening_def onSnapshot_def alice_def id_val_def lit_Nil_iff)
  have s1: "toggle_settled False jan1 (lit ''Breakfast'') 1000 ([], alice) = ([(?k, claimed_by_alice)], ?a1)"
    by (simp add: toggle_settled_def Let_def scenario_A_toggle is_write_def commit_def l0)
  have s2: "toggle_settled False jan1 (lit ''Breakfast'') 2000 ([(?k, claimed_by_alice)], ?a1)
      = ([(?k, unclaimed_by_alice)], onSnapshot [(?k, unclaimed_by_alice)] ?a1)"
    by (simp add: toggle_settled_def Let_def scenario_C_toggle is_write_def commit_def l1 unclaim_update)
  have f: "get_prop unclaimed_by_alice (lit ''claimedBy'') = Null
      \<and> get_prop unclaimed_by_alice (lit ''name'') = Null
      \<and> get_prop unclaimed_by_alice (lit ''color'') = Null
      \<and> get_prop unclaimed_by_alice (lit ''timestamp'') = Num 1000"
    by (simp add: get_prop_def unclaimed_by_alice_def lit_eq_iff)
  have g: "rotaData (onSnapshot [(?k, unclaimed_by_alice)] ?a1) ?k = None"
    using f by (simp add: onSnapshot_def)
  show ?thesis unfolding s1 s2 using f g by simp
qed

end
